theory Spec2Isabelle
  imports Complex_Main
begin

section \<open>The Python fragment used by \<^verbatim>\<open>runtime-modeling/models.py\<close>\<close>

text \<open>
  The module is a shallow embedding of \<^verbatim>\<open>MnasNetDecoder\<close>, the two preset builders and
  the configuration part of \<^verbatim>\<open>build_mnasnet_model\<close>. Python text is a \<open>string\<close>
  of ASCII characters, Python integers are \<open>int\<close>, an exception is the \<open>Inl\<close>
  branch of a sum.

  Two things the source leaves to its interpreter are parameters of the embedding.
  \<^item> The file opens with \<^verbatim>\<open>from __future__ import\<close> lines, so it is written for
    Python 2 and Python 3 alike. The two differ where the code compares \<^verbatim>\<open>None\<close>
    with a number, and in the integer literals \<^verbatim>\<open>int()\<close> reads. The
    \<open>dialect\<close> says which interpreter runs the code.
  \<^item> Floating point is outside the embedding. A float is stood for by the rational
    number it denotes; \<^verbatim>\<open>'%s' % x\<close> and \<^verbatim>\<open>float(s)\<close> are
    functions handed to the model (\<open>float_str\<close>, \<open>float_of\<close>; the latter
    answers \<open>None\<close> where Python raises ValueError).

  Integers are unbounded: the limit recent Python 3 versions put on the length of an
  integer's decimal text is not modelled.
\<close>

datatype dialect = Python2 | Python3

datatype py_error =
    StridesValueError
  | KeyError string
  | IntValueError string
  | FloatValueError string
  | NoneOrderTypeError
  | NoneSubscriptTypeError
  | IntArgTypeError
  | NotImplementedError string
  | UnexpectedFieldsValueError "string list"

text \<open>
  \<open>StridesValueError\<close> is \<^verbatim>\<open>ValueError('Strides options should be a pair of integers.')\<close>;
  \<open>KeyError k\<close> is a dictionary read at the absent key \<open>k\<close>;
  \<open>IntValueError v\<close> and \<open>FloatValueError v\<close> are the ValueError of
  \<^verbatim>\<open>int(v)\<close> and \<^verbatim>\<open>float(v)\<close> on a text that is no literal;
  \<open>NoneOrderTypeError\<close> is the TypeError of \<^verbatim>\<open>None > 0\<close> under Python 3;
  \<open>NoneSubscriptTypeError\<close> is the TypeError of \<^verbatim>\<open>None['kernel']\<close>;
  \<open>IntArgTypeError\<close> is the TypeError of \<^verbatim>\<open>int(None)\<close>;
  \<open>UnexpectedFieldsValueError ks\<close> is the ValueError of a namedtuple's
  \<^verbatim>\<open>_replace\<close>, \<^verbatim>\<open>'Got unexpected field names: ...'\<close>, with the names it lists.
\<close>

datatype pyval = PNone | PBool bool | PInt int | PFloat rat | PStr string

text \<open>Sequencing: the second computation runs only if the first did not raise.\<close>

definition and_then :: "'e + 'a \<Rightarrow> ('a \<Rightarrow> 'e + 'b) \<Rightarrow> 'e + 'b" where
  "and_then m f = (case m of Inl err \<Rightarrow> Inl err | Inr x \<Rightarrow> f x)"

subsection \<open>Decimal digits, \<^verbatim>\<open>'%d' % n\<close> and \<^verbatim>\<open>int(s)\<close>\<close>

definition is_digit :: "char \<Rightarrow> bool" where
  "is_digit c = (c \<in> set ''0123456789'')"

definition digit_val :: "char \<Rightarrow> nat" where
  "digit_val c = of_char c - 48"

definition digit_char :: "nat \<Rightarrow> char" where
  "digit_char d = ''0123456789'' ! d"

fun show_nat :: "nat \<Rightarrow> string" where
  "show_nat n = (if n < 10 then [digit_char n]
                 else show_nat (n div 10) @ [digit_char (n mod 10)])"

definition show_int :: "int \<Rightarrow> string" where
  "show_int i = (if i < 0 then CHR ''-'' # show_nat (nat (- i)) else show_nat (nat i))"

definition digits_nat :: "string \<Rightarrow> nat" where
  "digits_nat ds = foldl (\<lambda>a c. 10 * a + digit_val c) 0 ds"

definition py_isspace :: "char \<Rightarrow> bool" where
  "py_isspace c = (c \<in> set [CHR '' '', CHR 0x09, CHR 0x0A, CHR 0x0B, CHR 0x0C, CHR 0x0D])"

definition py_strip :: "string \<Rightarrow> string" where
  "py_strip s = rev (dropWhile py_isspace (rev (dropWhile py_isspace s)))"

text \<open>
  The digits of an integer literal. Python 3 also reads single underscores between
  digits (\<^verbatim>\<open>int('1_000')\<close>); Python 2 rejects them.
\<close>

fun int_body_ok :: "dialect \<Rightarrow> string \<Rightarrow> bool" where
  "int_body_ok ver [] = False"
| "int_body_ok ver [c] = is_digit c"
| "int_body_ok ver (c # d # cs) =
     (is_digit c \<and>
      (if d = CHR ''_'' then ver = Python3 \<and> int_body_ok ver cs
       else int_body_ok ver (d # cs)))"

definition py_int :: "dialect \<Rightarrow> string \<Rightarrow> py_error + int" where
  "py_int ver s =
     (let t = py_strip s;
          neg = (t \<noteq> [] \<and> hd t = CHR ''-'');
          body = (if t \<noteq> [] \<and> (hd t = CHR ''-'' \<or> hd t = CHR ''+'') then tl t else t)
      in if int_body_ok ver body
         then Inr ((if neg then - 1 else 1) * int (digits_nat (filter is_digit body)))
         else Inl (IntValueError s))"

text \<open>\<^verbatim>\<open>int(v)\<close> on a value that need not be text (the build parameters).\<close>

fun py_int_of :: "dialect \<Rightarrow> pyval \<Rightarrow> py_error + int" where
  "py_int_of ver PNone = Inl IntArgTypeError"
| "py_int_of ver (PBool b) = Inr (if b then 1 else 0)"
| "py_int_of ver (PInt n) = Inr n"
| "py_int_of ver (PFloat x) = Inr (if 0 \<le> x then \<lfloor>x\<rfloor> else \<lceil>x\<rceil>)"
| "py_int_of ver (PStr s) = py_int ver s"

subsection \<open>\<^verbatim>\<open>str.split\<close>, \<^verbatim>\<open>str.join\<close>, \<^verbatim>\<open>in\<close> and the regular expression\<close>

fun py_split :: "char \<Rightarrow> string \<Rightarrow> string list" where
  "py_split sep [] = [[]]"
| "py_split sep (c # cs) =
     (if c = sep then [] # py_split sep cs
      else (case py_split sep cs of [] \<Rightarrow> [[c]] | t # ts \<Rightarrow> (c # t) # ts))"

fun py_join :: "string \<Rightarrow> string list \<Rightarrow> string" where
  "py_join sep [] = []"
| "py_join sep [x] = x"
| "py_join sep (x # y # ys) = x @ sep @ py_join sep (y # ys)"

fun py_in :: "string \<Rightarrow> string \<Rightarrow> bool" where
  "py_in sub [] = (sub = [])"
| "py_in sub (c # cs) = (take (length sub) (c # cs) = sub \<or> py_in sub cs)"

text \<open>
  \<^verbatim>\<open>re.split(r'(\d.*)', op)[:2]\<close>: the pattern matches from the first digit to the
  end of the line (\<^verbatim>\<open>.\<close> does not match a newline), and the group keeps the match
  in the result. Without a digit the result is \<^verbatim>\<open>[op]\<close>; with one, its first two
  elements are the text before the first digit and the match.
\<close>

definition re_split_digits :: "string \<Rightarrow> string list" where
  "re_split_digits op =
     (let key = takeWhile (\<lambda>c. \<not> is_digit c) op;
          rest = dropWhile (\<lambda>c. \<not> is_digit c) op
      in if rest = [] then [op] else [key, takeWhile (\<lambda>c. c \<noteq> CHR 0x0A) rest])"

section \<open>The block record\<close>

text \<open>
  Modelled from the spec: \<^verbatim>\<open>model_def.BlockArgs\<close> (the module \<^verbatim>\<open>model_def\<close> is
  not among the sources). Its fields are those the decoder passes by keyword and the
  spec's StageDescriptor lists; \<open>strides\<close> is the two-element list the decoder builds.
\<close>

record BlockArgs =
  kernel_size :: int
  num_repeat :: int
  input_filters :: int
  output_filters :: int
  expand_ratio :: int
  id_skip :: bool
  se_ratio :: "rat option"
  strides :: "int \<times> int"

section \<open>\<^verbatim>\<open>MnasNetDecoder\<close>\<close>

text \<open>The loop over \<^verbatim>\<open>ops\<close> that fills the dictionary \<^verbatim>\<open>options\<close>.\<close>

fun parse_ops :: "string list \<Rightarrow> (string \<rightharpoonup> string) \<Rightarrow> (string \<rightharpoonup> string)" where
  "parse_ops [] options = options"
| "parse_ops (op # ops) options =
     (case re_split_digits op of
        key # val # _ \<Rightarrow> parse_ops ops (options(key \<mapsto> val))
      | _ \<Rightarrow> parse_ops ops options)"

definition block_options :: "string \<Rightarrow> (string \<rightharpoonup> string)" where
  "block_options block_string = parse_ops (py_split (CHR ''_'') block_string) Map.empty"

text \<open>\<^verbatim>\<open>int(options[key])\<close>.\<close>

definition int_option :: "dialect \<Rightarrow> (string \<rightharpoonup> string) \<Rightarrow> string \<Rightarrow> py_error + int" where
  "int_option ver options key =
     (case options key of None \<Rightarrow> Inl (KeyError key) | Some v \<Rightarrow> py_int ver v)"

text \<open>\<^verbatim>\<open>float(options['se']) if 'se' in options else None\<close>.\<close>

definition se_option :: "(string \<Rightarrow> rat option) \<Rightarrow> (string \<rightharpoonup> string) \<Rightarrow> py_error + rat option" where
  "se_option float_of options =
     (case options ''se'' of
        None \<Rightarrow> Inr None
      | Some v \<Rightarrow> (case float_of v of None \<Rightarrow> Inl (FloatValueError v) | Some x \<Rightarrow> Inr (Some x)))"

text \<open>
  \<^verbatim>\<open>_decode_block_string\<close>. The keyword arguments of \<^verbatim>\<open>BlockArgs(...)\<close> are
  evaluated in the order they are written, so the first one that raises decides the
  exception.
\<close>

definition decode_block_string ::
    "dialect \<Rightarrow> (string \<Rightarrow> rat option) \<Rightarrow> string \<Rightarrow> py_error + BlockArgs" where
  "decode_block_string ver float_of block_string =
     (let options = block_options block_string in
      case options ''s'' of
        None \<Rightarrow> Inl StridesValueError
      | Some sv \<Rightarrow>
          if length sv \<noteq> 2 then Inl StridesValueError
          else
            and_then (int_option ver options ''k'') (\<lambda>k.
            and_then (int_option ver options ''r'') (\<lambda>r.
            and_then (int_option ver options ''i'') (\<lambda>i.
            and_then (int_option ver options ''o'') (\<lambda>o'.
            and_then (int_option ver options ''e'') (\<lambda>e.
            and_then (se_option float_of options) (\<lambda>se.
            and_then (py_int ver [sv ! 0]) (\<lambda>s0.
            and_then (py_int ver [sv ! 1]) (\<lambda>s1.
              Inr \<lparr> kernel_size = k, num_repeat = r, input_filters = i,
                    output_filters = o', expand_ratio = e,
                    id_skip = (\<not> py_in ''noskip'' block_string),
                    se_ratio = se, strides = (s0, s1) \<rparr>)))))))))"

text \<open>
  \<^verbatim>\<open>block.se_ratio > 0 and block.se_ratio <= 1\<close>, and the token it guards. Python 2
  orders \<^verbatim>\<open>None\<close> below every number; Python 3 raises TypeError.
\<close>

fun se_args :: "dialect \<Rightarrow> (rat \<Rightarrow> string) \<Rightarrow> rat option \<Rightarrow> py_error + string list" where
  "se_args ver float_str (Some x) =
     Inr (if 0 < x \<and> x \<le> 1 then [''se'' @ float_str x] else [])"
| "se_args Python2 float_str None = Inr []"
| "se_args Python3 float_str None = Inl NoneOrderTypeError"

definition encode_block_string ::
    "dialect \<Rightarrow> (rat \<Rightarrow> string) \<Rightarrow> BlockArgs \<Rightarrow> py_error + string" where
  "encode_block_string ver float_str block =
     (let args = [''r'' @ show_int (num_repeat block),
                  ''k'' @ show_int (kernel_size block),
                  ''s'' @ show_int (fst (strides block)) @ show_int (snd (strides block)),
                  ''e'' @ show_int (expand_ratio block),
                  ''i'' @ show_int (input_filters block),
                  ''o'' @ show_int (output_filters block)]
      in case se_args ver float_str (se_ratio block) of
           Inl err \<Rightarrow> Inl err
         | Inr se \<Rightarrow>
             Inr (py_join ''_''
                    (args @ se @ (if id_skip block = False then [''noskip''] else []))))"

fun decode :: "dialect \<Rightarrow> (string \<Rightarrow> rat option) \<Rightarrow> string list \<Rightarrow> py_error + BlockArgs list" where
  "decode ver float_of [] = Inr []"
| "decode ver float_of (block_string # rest) =
     (case decode_block_string ver float_of block_string of
        Inl err \<Rightarrow> Inl err
      | Inr block \<Rightarrow>
          (case decode ver float_of rest of
             Inl err \<Rightarrow> Inl err
           | Inr blocks \<Rightarrow> Inr (block # blocks)))"

fun encode :: "dialect \<Rightarrow> (rat \<Rightarrow> string) \<Rightarrow> BlockArgs list \<Rightarrow> py_error + string list" where
  "encode ver float_str [] = Inr []"
| "encode ver float_str (block # rest) =
     (case encode_block_string ver float_str block of
        Inl err \<Rightarrow> Inl err
      | Inr s \<Rightarrow>
          (case encode ver float_str rest of
             Inl err \<Rightarrow> Inl err
           | Inr ss \<Rightarrow> Inr (s # ss)))"

section \<open>Global parameters and presets\<close>

text \<open>
  Modelled from the spec: \<^verbatim>\<open>model_def.GlobalParams\<close> (the module \<^verbatim>\<open>model_def\<close>
  is not among the sources). It is the immutable record of the spec's data model, a
  \<^verbatim>\<open>collections.namedtuple\<close>: a fixed list of field names, each with a value. The
  fields are those the two presets pass by keyword. \<open>namedtuple_replace\<close> is its
  \<^verbatim>\<open>_replace(**kwds)\<close>, the spec's override merge: every field takes the value
  \<open>kwds\<close> gives it and keeps its own otherwise; a keyword that names no field raises
  the ValueError the comment in \<^verbatim>\<open>build_mnasnet_model\<close> speaks of, and no record is
  returned. A keyword dictionary is the list of its items.
\<close>

type_synonym namedtuple = "(string \<times> pyval) list"

definition namedtuple_replace :: "namedtuple \<Rightarrow> (string \<times> pyval) list \<Rightarrow> py_error + namedtuple" where
  "namedtuple_replace self kwds =
     (let result = map (\<lambda>(field, old). (field, case map_of kwds field of None \<Rightarrow> old | Some v \<Rightarrow> v)) self;
          unexpected = filter (\<lambda>k. k \<notin> set (map fst self)) (map fst kwds)
      in if unexpected = [] then Inr result else Inl (UnexpectedFieldsValueError unexpected))"

definition mnasnet_3x3_1 ::
    "dialect \<Rightarrow> (string \<Rightarrow> rat option) \<Rightarrow> pyval \<Rightarrow> py_error + BlockArgs list \<times> namedtuple" where
  "mnasnet_3x3_1 ver float_of depth_multiplier =
     (let blocks_args =
            [''r1_k3_s11_e1_i32_o16_noskip'',
             ''r4_k3_s22_e1_i16_o24'',
             ''r4_k3_s22_e1_i24_o40'',
             ''r4_k3_s22_e1_i40_o80'',
             ''r4_k3_s11_e1_i80_o96'',
             ''r4_k3_s22_e1_i96_o192'',
             ''r1_k3_s11_e6_i192_o320_noskip''];
          global_params =
            [(''batch_norm_momentum'', PFloat (99 / 100)),
             (''batch_norm_epsilon'', PFloat (1 / 1000)),
             (''dropout_rate'', PFloat (2 / 10)),
             (''data_format'', PStr ''channels_last''),
             (''num_classes'', PInt 1000),
             (''depth_multiplier'', depth_multiplier),
             (''depth_divisor'', PInt 8),
             (''min_depth'', PNone)]
      in and_then (decode ver float_of blocks_args) (\<lambda>blocks. Inr (blocks, global_params)))"

definition mnasnet_backbone ::
    "dialect \<Rightarrow> (string \<Rightarrow> rat option) \<Rightarrow> int \<Rightarrow> int \<Rightarrow> py_error + BlockArgs list \<times> namedtuple" where
  "mnasnet_backbone ver float_of k e =
     (let blocks_args =
            [''r1_k3_s11_e1_i32_o16_noskip'',
             ''r4_k'' @ show_int k @ ''_s22_e'' @ show_int e @ ''_i16_o24'',
             ''r4_k'' @ show_int k @ ''_s22_e'' @ show_int e @ ''_i24_o40'',
             ''r4_k'' @ show_int k @ ''_s22_e'' @ show_int e @ ''_i40_o80'',
             ''r4_k'' @ show_int k @ ''_s11_e'' @ show_int e @ ''_i80_o96'',
             ''r4_k'' @ show_int k @ ''_s22_e'' @ show_int e @ ''_i96_o192'',
             ''r1_k3_s11_e6_i192_o320_noskip''];
          global_params =
            [(''batch_norm_momentum'', PFloat (99 / 100)),
             (''batch_norm_epsilon'', PFloat (1 / 1000)),
             (''dropout_rate'', PFloat (2 / 10)),
             (''data_format'', PStr ''channels_last''),
             (''num_classes'', PInt 1000),
             (''depth_multiplier'', PNone),
             (''depth_divisor'', PInt 8),
             (''expratio'', PInt e),
             (''kernel'', PInt k),
             (''min_depth'', PNone)]
      in and_then (decode ver float_of blocks_args) (\<lambda>blocks. Inr (blocks, global_params)))"

section \<open>\<^verbatim>\<open>build_mnasnet_model\<close>\<close>

text \<open>\<^verbatim>\<open>override_params[key]\<close>, where \<^verbatim>\<open>override_params\<close> defaults to \<^verbatim>\<open>None\<close>.\<close>

definition override_param :: "(string \<times> pyval) list option \<Rightarrow> string \<Rightarrow> py_error + pyval" where
  "override_param override_params key =
     (case override_params of
        None \<Rightarrow> Inl NoneSubscriptTypeError
      | Some kwds \<Rightarrow> (case map_of kwds key of None \<Rightarrow> Inl (KeyError key) | Some v \<Rightarrow> Inr v))"

text \<open>
  Lines 185 to 188: \<^verbatim>\<open>if override_params: global_params = global_params._replace(**override_params)\<close>.
  \<^verbatim>\<open>None\<close> and the empty dictionary are false.
\<close>

definition apply_overrides :: "namedtuple \<Rightarrow> (string \<times> pyval) list option \<Rightarrow> py_error + namedtuple" where
  "apply_overrides global_params override_params =
     (case override_params of
        None \<Rightarrow> Inr global_params
      | Some kwds \<Rightarrow> if kwds = [] then Inr global_params else namedtuple_replace global_params kwds)"

text \<open>
  The function up to the point where it hands \<^verbatim>\<open>blocks_args\<close> and
  \<^verbatim>\<open>global_params\<close> to \<^verbatim>\<open>model_def.MnasNetModel\<close>; the result is that pair. The
  tensor argument, the variable scope and the model itself are TensorFlow's.
\<close>

definition build_mnasnet_model ::
    "dialect \<Rightarrow> (string \<Rightarrow> rat option) \<Rightarrow> string \<Rightarrow> (string \<times> pyval) list option
       \<Rightarrow> py_error + BlockArgs list \<times> namedtuple" where
  "build_mnasnet_model ver float_of model_name override_params =
     and_then
       (if model_name = ''mnasnet-backbone''
        then and_then (and_then (override_param override_params ''kernel'') (py_int_of ver)) (\<lambda>kernel.
             and_then (and_then (override_param override_params ''expratio'') (py_int_of ver)) (\<lambda>expratio.
               mnasnet_backbone ver float_of kernel expratio))
        else Inl (NotImplementedError model_name))
       (\<lambda>(blocks_args, global_params).
          and_then (apply_overrides global_params override_params) (\<lambda>global_params'.
            Inr (blocks_args, global_params')))"

section \<open>Auxiliary facts\<close>

lemma and_then_Inr_iff: "and_then m f = Inr y \<longleftrightarrow> (\<exists>x. m = Inr x \<and> f x = Inr y)"
  by (cases m) (simp_all add: and_then_def)

lemma and_then_Inl [simp]: "and_then (Inl err) f = Inl err"
  by (simp add: and_then_def)

lemma and_then_Inr [simp]: "and_then (Inr x) f = f x"
  by (simp add: and_then_def)

subsection \<open>The substring test\<close>

lemma take_length_eq_iff: "take (length sub) s = sub \<longleftrightarrow> (\<exists>post. s = sub @ post)"
proof
  assume "take (length sub) s = sub"
  then have "s = sub @ drop (length sub) s" by (metis append_take_drop_id)
  then show "\<exists>post. s = sub @ post" ..
next
  assume "\<exists>post. s = sub @ post"
  then show "take (length sub) s = sub" by auto
qed

lemma py_in_iff: "py_in sub s \<longleftrightarrow> (\<exists>pre post. s = pre @ sub @ post)"
proof (induction s)
  case Nil
  show ?case by auto
next
  case (Cons c cs)
  have "(\<exists>pre post. c # cs = pre @ sub @ post) \<longleftrightarrow>
        (\<exists>post. c # cs = sub @ post) \<or> (\<exists>pre post. cs = pre @ sub @ post)"
  proof
    assume "\<exists>pre post. c # cs = pre @ sub @ post"
    then obtain pre post where eq: "c # cs = pre @ sub @ post" by blast
    show "(\<exists>post. c # cs = sub @ post) \<or> (\<exists>pre post. cs = pre @ sub @ post)"
    proof (cases pre)
      case Nil
      with eq show ?thesis by auto
    next
      case (Cons p ps)
      with eq have "cs = ps @ sub @ post" by simp
      then show ?thesis by blast
    qed
  next
    assume "(\<exists>post. c # cs = sub @ post) \<or> (\<exists>pre post. cs = pre @ sub @ post)"
    then show "\<exists>pre post. c # cs = pre @ sub @ post"
    proof
      assume "\<exists>post. c # cs = sub @ post"
      then obtain post where "c # cs = [] @ sub @ post" by auto
      then show ?thesis by blast
    next
      assume "\<exists>pre post. cs = pre @ sub @ post"
      then obtain pre post where "cs = pre @ sub @ post" by blast
      then have "c # cs = (c # pre) @ sub @ post" by simp
      then show ?thesis by blast
    qed
  qed
  with Cons show ?case by (simp add: take_length_eq_iff del: take_Suc_Cons)
qed

lemma decode_block_string_id_skip:
  assumes "decode_block_string ver float_of block_string = Inr block"
  shows "id_skip block = (\<not> py_in ''noskip'' block_string)"
  using assms
  by (auto simp: decode_block_string_def Let_def and_then_Inr_iff
           split: option.splits if_splits)

lemmas eval_defs =
  block_options_def re_split_digits_def is_digit_def int_option_def se_option_def
  py_int_def py_strip_def py_isspace_def digits_nat_def digit_val_def Let_def

subsection \<open>The dictionary of options\<close>


lemma parse_ops_append: "parse_ops (xs @ ys) m = parse_ops ys (parse_ops xs m)"
  by (induction xs arbitrary: m) (auto split: list.splits)


lemma int_option_error:
  assumes "int_option ver options key = Inl err"
  shows "(err = KeyError key \<and> options key = None) \<or>
         (\<exists>v. options key = Some v \<and> err = IntValueError v)"
  using assms by (auto simp: int_option_def py_int_def Let_def split: option.splits if_splits)

lemma find_isl_error:
  assumes "find isl (map (int_option ver options) keys) = Some (Inl err)"
  shows "(\<exists>k \<in> set keys. err = KeyError k \<and> options k = None) \<or>
         (\<exists>k \<in> set keys. \<exists>v. options k = Some v \<and> err = IntValueError v)"
proof -
  from assms have "Inl err \<in> set (map (int_option ver options) keys)"
    by (metis find_Some_iff nth_mem)
  then obtain k where "k \<in> set keys" and "int_option ver options k = Inl err" by auto
  with int_option_error [of ver options k err] show ?thesis by blast
qed

subsection \<open>What the encoder can raise\<close>

lemma encode_block_string_error:
  "encode_block_string ver float_str block = Inl err \<Longrightarrow>
     err = NoneOrderTypeError \<and> ver = Python3 \<and> se_ratio block = None"
  by (cases ver; cases "se_ratio block") (auto simp: encode_block_string_def)

text \<open>
  Where it returns, the encoder writes the six tokens in their fixed order, then the
  \<^verbatim>\<open>se\<close> token exactly for a ratio in (0, 1], then \<^verbatim>\<open>noskip\<close> exactly for a
  block whose \<open>id_skip\<close> is false.
\<close>

lemma encode_block_string_tokens:
  assumes "ver = Python2 \<or> se_ratio block \<noteq> None"
  shows "encode_block_string ver float_str block =
           Inr (py_join ''_''
                  ([''r'' @ show_int (num_repeat block),
                    ''k'' @ show_int (kernel_size block),
                    ''s'' @ show_int (fst (strides block)) @ show_int (snd (strides block)),
                    ''e'' @ show_int (expand_ratio block),
                    ''i'' @ show_int (input_filters block),
                    ''o'' @ show_int (output_filters block)]
                   @ (case se_ratio block of
                        None \<Rightarrow> []
                      | Some x \<Rightarrow> if 0 < x \<and> x \<le> 1 then [''se'' @ float_str x] else [])
                   @ (if id_skip block then [] else [''noskip''])))"
  using assms by (cases ver; cases "se_ratio block") (simp_all add: encode_block_string_def)

subsection \<open>Integers and their decimal text\<close>

declare show_nat.simps [simp del]

lemma digit_char_is_digit: "d < 10 \<Longrightarrow> is_digit (digit_char d)"
proof -
  assume "d < 10"
  then have "d \<in> {0,1,2,3,4,5,6,7,8,9}" by auto
  then show ?thesis by (auto simp: is_digit_def digit_char_def)
qed

lemma digit_val_digit_char: "d < 10 \<Longrightarrow> digit_val (digit_char d) = d"
proof -
  assume "d < 10"
  then have "d \<in> {0,1,2,3,4,5,6,7,8,9}" by auto
  then show ?thesis by (auto simp: digit_val_def digit_char_def)
qed

lemma show_nat_digits: "list_all is_digit (show_nat n)"
proof (induction n rule: show_nat.induct)
  case (1 n)
  show ?case
  proof (cases "n < 10")
    case True
    then show ?thesis by (subst show_nat.simps) (simp add: digit_char_is_digit)
  next
    case False
    with 1 show ?thesis by (subst show_nat.simps) (simp add: digit_char_is_digit)
  qed
qed

lemma show_nat_not_Nil: "show_nat n \<noteq> []"
  by (subst show_nat.simps) simp

lemma digits_nat_snoc: "digits_nat (ds @ [c]) = 10 * digits_nat ds + digit_val c"
  by (simp add: digits_nat_def)

lemma digits_nat_show_nat: "digits_nat (show_nat n) = n"
proof (induction n rule: show_nat.induct)
  case (1 n)
  show ?case
  proof (cases "n < 10")
    case True
    then show ?thesis
      by (subst show_nat.simps) (simp add: digits_nat_def digit_val_digit_char)
  next
    case False
    with 1 have "digits_nat (show_nat (n div 10)) = n div 10" by simp
    with False show ?thesis
      by (subst show_nat.simps) (simp add: digits_nat_snoc digit_val_digit_char)
  qed
qed

lemma is_digit_not_space: "is_digit c \<Longrightarrow> \<not> py_isspace c"
  by (auto simp: is_digit_def py_isspace_def)

lemma is_digit_not_sign: "is_digit c \<Longrightarrow> c \<noteq> CHR ''-'' \<and> c \<noteq> CHR ''+'' \<and> c \<noteq> CHR ''_'' \<and> c \<noteq> CHR 0x0A \<and> c \<noteq> CHR ''n''"
  by (auto simp: is_digit_def)

lemma py_strip_digits:
  assumes "list_all is_digit ds"
  shows "py_strip ds = ds"
proof (cases ds rule: rev_cases)
  case Nil
  then show ?thesis by (simp add: py_strip_def)
next
  case (snoc xs x)
  with assms have l: "\<not> py_isspace x" by (simp add: is_digit_not_space)
  from assms have "ds = [] \<or> \<not> py_isspace (hd ds)"
    by (cases ds) (simp_all add: is_digit_not_space)
  then have "dropWhile py_isspace ds = ds" by (cases ds) auto
  with snoc l show ?thesis by (simp add: py_strip_def)
qed

lemma int_body_ok_digits:
  "list_all is_digit ds \<Longrightarrow> ds \<noteq> [] \<Longrightarrow> int_body_ok ver ds"
  by (induction ver ds rule: int_body_ok.induct) (auto simp: is_digit_not_sign)

lemma py_int_digits:
  assumes "list_all is_digit ds" and "ds \<noteq> []"
  shows "py_int ver ds = Inr (int (digits_nat ds))"
proof -
  from assms have "is_digit (hd ds)" by (cases ds) simp_all
  then have "hd ds \<noteq> CHR ''-''" "hd ds \<noteq> CHR ''+''" by (simp_all add: is_digit_not_sign)
  moreover from assms(1) have "filter is_digit ds = ds" by (simp add: list_all_iff)
  ultimately show ?thesis
    using assms by (simp add: py_int_def py_strip_digits int_body_ok_digits)
qed

lemma py_int_show_nat: "py_int ver (show_nat n) = Inr (int n)"
  by (simp add: py_int_digits show_nat_digits show_nat_not_Nil digits_nat_show_nat)

lemma py_int_show_int: "0 \<le> i \<Longrightarrow> py_int ver (show_int i) = Inr i"
  by (simp add: show_int_def py_int_show_nat)

lemma show_int_digits: "0 \<le> n \<Longrightarrow> list_all is_digit (show_int n)"
  by (simp add: show_int_def show_nat_digits)

lemma show_int_not_Nil: "show_int n \<noteq> []"
  by (simp add: show_int_def show_nat_not_Nil)

lemma show_nat_one_digit: "n < 10 \<Longrightarrow> show_nat n = [digit_char n]"
  by (subst show_nat.simps) simp

lemma show_int_one_digit: "0 \<le> n \<Longrightarrow> n \<le> 9 \<Longrightarrow> show_int n = [digit_char (nat n)]"
  by (simp add: show_int_def show_nat_one_digit)

lemma show_int_5: "show_int 5 = ''5''"
  by (simp add: show_int_one_digit digit_char_def)

lemma show_int_3: "show_int 3 = ''3''"
  by (simp add: show_int_one_digit digit_char_def)

subsection \<open>Splitting, joining and the tokens of an encoded block\<close>

lemma py_split_not_Nil: "py_split sep s \<noteq> []"
  by (induction s) (auto split: list.splits)

lemma py_split_append_no_sep:
  "sep \<notin> set t \<Longrightarrow>
     py_split sep (t @ s) = (t @ hd (py_split sep s)) # tl (py_split sep s)"
proof (induction t)
  case Nil
  then show ?case using py_split_not_Nil [of sep s] by simp
next
  case (Cons c t)
  then show ?case by auto
qed

lemma py_split_join:
  assumes "ts \<noteq> []" and "\<forall>t \<in> set ts. sep \<notin> set t"
  shows "py_split sep (py_join [sep] ts) = ts"
  using assms
proof (induction "[sep]" ts rule: py_join.induct)
  case 1
  then show ?case by simp
next
  case (2 x)
  then show ?case using py_split_append_no_sep [of sep x "[]"] by simp
next
  case (3 x y ys)
  then have "py_split sep (py_join [sep] (y # ys)) = y # ys" by simp
  moreover from 3 have "sep \<notin> set x" by simp
  ultimately show ?case
    using py_split_append_no_sep [of sep x "sep # py_join [sep] (y # ys)"] by simp
qed

lemma re_split_digits_token:
  assumes "\<forall>c \<in> set key. \<not> is_digit c" and "v \<noteq> []" and "is_digit (hd v)"
      and "CHR 0x0A \<notin> set v"
  shows "re_split_digits (key @ v) = [key, v]"
proof -
  from assms(2,3) have "takeWhile (\<lambda>c. \<not> is_digit c) v = []" by (cases v) simp_all
  with assms(1) have k: "takeWhile (\<lambda>c. \<not> is_digit c) (key @ v) = key"
    by simp
  from assms(2,3) have "dropWhile (\<lambda>c. \<not> is_digit c) v = v" by (cases v) simp_all
  with assms(1) have r: "dropWhile (\<lambda>c. \<not> is_digit c) (key @ v) = v"
    by simp
  from assms(4) have "takeWhile (\<lambda>c. c \<noteq> CHR 0x0A) v = v"
    by (simp add: takeWhile_eq_all_conv) blast
  with k r assms(2) show ?thesis by (simp add: re_split_digits_def)
qed

lemma set_py_join: "set (py_join sep ts) \<subseteq> set sep \<union> \<Union> (set ` set ts)"
  by (induction sep ts rule: py_join.induct) auto

lemma py_join_snoc:
  "ts \<noteq> [] \<Longrightarrow> py_join sep (ts @ [t]) = py_join sep ts @ sep @ t"
  by (induction sep ts rule: py_join.induct) auto


lemma not_in_set_not_py_in:
  assumes "c \<in> set sub" and "c \<notin> set s"
  shows "\<not> py_in sub s"
proof
  assume "py_in sub s"
  then obtain pre post where "s = pre @ sub @ post" by (auto simp: py_in_iff)
  with assms show False by auto
qed

lemma parse_ops_token:
  assumes "re_split_digits op = [key, v]"
  shows "parse_ops (op # ops) m = parse_ops ops (m(key \<mapsto> v))"
  using assms by simp

lemma not_digit_chars:
  "\<not> is_digit (CHR ''_'')" "\<not> is_digit (CHR ''n'')" "\<not> is_digit (CHR 0x0A)"
  by (simp_all add: is_digit_def)

lemma digits_free_of:
  assumes "list_all is_digit v"
  shows "CHR ''_'' \<notin> set v" and "CHR ''n'' \<notin> set v" and "CHR 0x0A \<notin> set v"
  using assms not_digit_chars unfolding list_all_iff by blast+

lemma re_split_digits_value:
  assumes "\<forall>c \<in> set key. \<not> is_digit c" and "list_all is_digit v" and "v \<noteq> []"
  shows "re_split_digits (key @ v) = [key, v]"
proof (rule re_split_digits_token [OF assms(1) assms(3)])
  from assms(2,3) show "is_digit (hd v)" by (cases v) simp_all
  from assms(2) show "CHR 0x0A \<notin> set v" by (rule digits_free_of)
qed

lemma float_chars:
  "CHR ''_'' \<notin> set ''0123456789.e+-''" "CHR ''n'' \<notin> set ''0123456789.e+-''"
  "CHR 0x0A \<notin> set ''0123456789.e+-''"
  by simp_all

lemma float_text_free_of:
  assumes "set v \<subseteq> set ''0123456789.e+-''"
  shows "CHR ''_'' \<notin> set v" and "CHR ''n'' \<notin> set v" and "CHR 0x0A \<notin> set v"
  using assms float_chars by blast+

lemma re_split_digits_noskip: "re_split_digits ''noskip'' = [''noskip'']"
  by (simp add: re_split_digits_def is_digit_def)

lemma int_token:
  assumes "0 \<le> n" and "\<not> is_digit c"
  shows "re_split_digits (c # show_int n) = [[c], show_int n]"
  using re_split_digits_value [of "[c]" "show_int n"] assms
  by (simp add: show_int_digits show_int_not_Nil)

lemma key_chars:
  "\<not> is_digit (CHR ''r'')" "\<not> is_digit (CHR ''k'')" "\<not> is_digit (CHR ''s'')"
  "\<not> is_digit (CHR ''e'')" "\<not> is_digit (CHR ''i'')" "\<not> is_digit (CHR ''o'')"
  by (simp_all add: is_digit_def)

lemma strides_token:
  assumes "0 \<le> a" and "0 \<le> b"
  shows "re_split_digits (CHR ''s'' # show_int a @ show_int b) = [''s'', show_int a @ show_int b]"
  using re_split_digits_value [of "''s''" "show_int a @ show_int b"] assms
  by (simp add: show_int_digits show_int_not_Nil key_chars)

lemma se_token:
  assumes "v \<noteq> []" and "is_digit (hd v)" and "set v \<subseteq> set ''0123456789.e+-''"
  shows "re_split_digits (CHR ''s'' # CHR ''e'' # v) = [''se'', v]"
  using re_split_digits_token [of "''se''" v] assms float_text_free_of(3) [OF assms(3)]
  by (simp add: key_chars)

lemma parse_args:
  assumes "0 \<le> r" "0 \<le> k" "0 \<le> a" "0 \<le> b" "0 \<le> e" "0 \<le> i" "0 \<le> o'"
  shows "parse_ops [CHR ''r'' # show_int r, CHR ''k'' # show_int k,
                    CHR ''s'' # show_int a @ show_int b, CHR ''e'' # show_int e,
                    CHR ''i'' # show_int i, CHR ''o'' # show_int o'] m
         = m(''r'' \<mapsto> show_int r, ''k'' \<mapsto> show_int k, ''s'' \<mapsto> show_int a @ show_int b,
             ''e'' \<mapsto> show_int e, ''i'' \<mapsto> show_int i, ''o'' \<mapsto> show_int o')"
  using assms by (simp add: int_token strides_token key_chars)

subsection \<open>The round trip of a block the encoder accepts\<close>

text \<open>
  The encoder raises only for an absent ratio under Python 3
  (\<open>encode_block_string_error\<close>). Everywhere else the round trip holds: for a block
  with non-negative integer fields, single-digit strides and a ratio that is absent
  (under Python 2) or lies in (0, 1], provided \<^verbatim>\<open>float()\<close> reads back the text
  \<^verbatim>\<open>'%s'\<close> writes for the ratio, a text that starts with a digit and consists of
  digits, \<^verbatim>\<open>.\<close>, \<^verbatim>\<open>e\<close>, \<^verbatim>\<open>+\<close> and \<^verbatim>\<open>-\<close>.
\<close>

lemma int_token_free_of:
  assumes "0 \<le> n" and "c \<noteq> CHR ''_''" and "c \<noteq> CHR ''n''"
  shows "CHR ''_'' \<notin> set (c # show_int n)" and "CHR ''n'' \<notin> set (c # show_int n)"
  using assms digits_free_of(1,2) [OF show_int_digits [OF assms(1)]] by auto

lemma py_int_digit_char: "0 \<le> a \<Longrightarrow> a \<le> 9 \<Longrightarrow> py_int ver [digit_char (nat a)] = Inr a"
  using py_int_show_int [of a ver] by (simp add: show_int_one_digit)

lemma round_trip:
  assumes r: "0 \<le> num_repeat d" and k: "0 \<le> kernel_size d" and e: "0 \<le> expand_ratio d"
      and i: "0 \<le> input_filters d" and o: "0 \<le> output_filters d"
      and a: "0 \<le> fst (strides d)" "fst (strides d) \<le> 9"
      and b: "0 \<le> snd (strides d)" "snd (strides d) \<le> 9"
      and se: "case se_ratio d of
                 None \<Rightarrow> ver = Python2
               | Some x \<Rightarrow> 0 < x \<and> x \<le> 1 \<and> float_of (float_str x) = Some x \<and>
                           float_str x \<noteq> [] \<and> is_digit (hd (float_str x)) \<and>
                           set (float_str x) \<subseteq> set ''0123456789.e+-''"
  shows "and_then (encode_block_string ver float_str d) (decode_block_string ver float_of) = Inr d"
proof -
  define args where "args =
    [CHR ''r'' # show_int (num_repeat d), CHR ''k'' # show_int (kernel_size d),
     CHR ''s'' # show_int (fst (strides d)) @ show_int (snd (strides d)),
     CHR ''e'' # show_int (expand_ratio d), CHR ''i'' # show_int (input_filters d),
     CHR ''o'' # show_int (output_filters d)]"
  define se_tok where "se_tok = (case se_ratio d of None \<Rightarrow> [] | Some x \<Rightarrow> [''se'' @ float_str x])"
  define skip_tok where "skip_tok = (if id_skip d then [] else [''noskip''])"
  define encoded where "encoded = py_join ''_'' (args @ se_tok @ skip_tok)"
  define m6 where "m6 = [''r'' \<mapsto> show_int (num_repeat d), ''k'' \<mapsto> show_int (kernel_size d),
     ''s'' \<mapsto> show_int (fst (strides d)) @ show_int (snd (strides d)),
     ''e'' \<mapsto> show_int (expand_ratio d), ''i'' \<mapsto> show_int (input_filters d),
     ''o'' \<mapsto> show_int (output_filters d)]"
  define m where "m = (case se_ratio d of None \<Rightarrow> m6 | Some x \<Rightarrow> m6(''se'' \<mapsto> float_str x))"

  have enc: "encode_block_string ver float_str d = Inr encoded"
    using se by (cases "se_ratio d")
      (simp_all add: encode_block_string_def encoded_def args_def se_tok_def skip_tok_def)

  have args_free: "\<forall>t \<in> set args. CHR ''_'' \<notin> set t \<and> CHR ''n'' \<notin> set t"
    using r k e i o a b digits_free_of(1,2) [OF show_int_digits]
    by (simp add: args_def)
  have se_free: "\<forall>t \<in> set se_tok. CHR ''_'' \<notin> set t \<and> CHR ''n'' \<notin> set t"
    using se float_text_free_of(1,2) by (cases "se_ratio d") (simp_all add: se_tok_def)
  have skip_free: "\<forall>t \<in> set skip_tok. CHR ''_'' \<notin> set t"
    by (simp add: skip_tok_def)
  have ne: "args @ se_tok @ skip_tok \<noteq> []" by (simp add: args_def)
  have "py_split (CHR ''_'') (py_join [CHR ''_''] (args @ se_tok @ skip_tok)) = args @ se_tok @ skip_tok"
    using args_free se_free skip_free by (intro py_split_join [OF ne]) auto
  then have split: "py_split (CHR ''_'') encoded = args @ se_tok @ skip_tok"
    by (simp add: encoded_def)

  have p_args: "parse_ops args Map.empty = m6"
    unfolding args_def m6_def by (rule parse_args [OF r k a(1) b(1) e i o])
  have p_se: "parse_ops se_tok m6 = m"
    using se by (cases "se_ratio d") (simp_all add: se_tok_def m_def se_token)
  have p_skip: "parse_ops skip_tok m = m"
    by (simp add: skip_tok_def re_split_digits_noskip)
  have opts: "block_options encoded = m"
    by (simp add: block_options_def split parse_ops_append p_args p_se p_skip)

  have skip: "py_in ''noskip'' encoded = (\<not> id_skip d)"
  proof (cases "id_skip d")
    case True
    then have "skip_tok = []" by (simp add: skip_tok_def)
    with args_free se_free have "\<forall>t \<in> set (args @ se_tok @ skip_tok). CHR ''n'' \<notin> set t" by auto
    with set_py_join [of "''_''" "args @ se_tok @ skip_tok"]
    have "CHR ''n'' \<notin> set encoded" unfolding encoded_def by auto
    then have "\<not> py_in ''noskip'' encoded" by (intro not_in_set_not_py_in [of "CHR ''n''"]) simp_all
    with True show ?thesis by simp
  next
    case False
    then have "encoded = py_join ''_'' (args @ se_tok) @ ''_'' @ ''noskip''"
      using py_join_snoc [of "args @ se_tok" "''_''" "''noskip''"]
      by (simp add: encoded_def skip_tok_def args_def)
    then have "encoded = (py_join ''_'' (args @ se_tok) @ ''_'') @ ''noskip'' @ []" by simp
    then have "py_in ''noskip'' encoded" unfolding py_in_iff by blast
    with False show ?thesis by simp
  qed

  have ms: "m ''s'' = Some (show_int (fst (strides d)) @ show_int (snd (strides d)))"
    by (cases "se_ratio d") (simp_all add: m_def m6_def)
  have mk: "int_option ver m ''k'' = Inr (kernel_size d)"
    using k by (cases "se_ratio d") (simp_all add: m_def m6_def int_option_def py_int_show_int)
  have mr: "int_option ver m ''r'' = Inr (num_repeat d)"
    using r by (cases "se_ratio d") (simp_all add: m_def m6_def int_option_def py_int_show_int)
  have mi: "int_option ver m ''i'' = Inr (input_filters d)"
    using i by (cases "se_ratio d") (simp_all add: m_def m6_def int_option_def py_int_show_int)
  have mo: "int_option ver m ''o'' = Inr (output_filters d)"
    using o by (cases "se_ratio d") (simp_all add: m_def m6_def int_option_def py_int_show_int)
  have me: "int_option ver m ''e'' = Inr (expand_ratio d)"
    using e by (cases "se_ratio d") (simp_all add: m_def m6_def int_option_def py_int_show_int)
  have mse: "se_option float_of m = Inr (se_ratio d)"
    using se by (cases "se_ratio d") (simp_all add: m_def m6_def se_option_def)
  have sv: "show_int (fst (strides d)) @ show_int (snd (strides d)) =
              [digit_char (nat (fst (strides d))), digit_char (nat (snd (strides d)))]"
    using a b by (simp add: show_int_one_digit)
  have "decode_block_string ver float_of encoded =
          Inr \<lparr> kernel_size = kernel_size d, num_repeat = num_repeat d,
                input_filters = input_filters d, output_filters = output_filters d,
                expand_ratio = expand_ratio d, id_skip = id_skip d,
                se_ratio = se_ratio d, strides = (fst (strides d), snd (strides d)) \<rparr>"
    using a b
    by (simp add: decode_block_string_def opts ms sv mk mr mi mo me mse skip py_int_digit_char)
  also have "\<dots> = Inr d" by simp
  finally show ?thesis by (simp add: enc)
qed

subsection \<open>Lists of blocks\<close>

text \<open>
  \<open>decode\<close> and \<open>encode\<close> work element by element and in order: they return a list
  exactly if every element is accepted, and then the results stand in the order of the
  input; the first element that raises decides the error, and no list is returned.
\<close>

lemma decode_Inr_iff:
  "decode ver float_of ss = Inr bs \<longleftrightarrow>
     list_all2 (\<lambda>s b. decode_block_string ver float_of s = Inr b) ss bs"
proof (induction ss arbitrary: bs)
  case Nil
  show ?case by auto
next
  case (Cons s ss)
  show ?case
  proof (cases "decode_block_string ver float_of s")
    case (Inl err)
    then show ?thesis by (auto simp: list_all2_Cons1)
  next
    case (Inr b)
    then show ?thesis
      using Cons.IH by (cases "decode ver float_of ss") (auto simp: list_all2_Cons1)
  qed
qed

lemma decode_first_error:
  assumes "\<forall>s \<in> set pre. \<exists>b. decode_block_string ver float_of s = Inr b"
      and "decode_block_string ver float_of s = Inl err"
  shows "decode ver float_of (pre @ s # post) = Inl err"
  using assms by (induction pre) auto

lemma encode_Inr_iff:
  "encode ver float_str blocks = Inr ss \<longleftrightarrow>
     list_all2 (\<lambda>b s. encode_block_string ver float_str b = Inr s) blocks ss"
proof (induction blocks arbitrary: ss)
  case Nil
  show ?case by auto
next
  case (Cons b blocks)
  show ?case
  proof (cases "encode_block_string ver float_str b")
    case (Inl err)
    then show ?thesis by (auto simp: list_all2_Cons1)
  next
    case (Inr s)
    then show ?thesis
      using Cons.IH by (cases "encode ver float_str blocks") (auto simp: list_all2_Cons1)
  qed
qed

lemma round_trip_list:
  assumes "\<forall>d \<in> set blocks.
             and_then (encode_block_string ver float_str d) (decode_block_string ver float_of) = Inr d"
  shows "and_then (encode ver float_str blocks) (decode ver float_of) = Inr blocks"
  using assms
proof (induction blocks)
  case Nil
  show ?case by simp
next
  case (Cons d blocks)
  then obtain s where s: "encode_block_string ver float_str d = Inr s"
      and d: "decode_block_string ver float_of s = Inr d"
    by (auto simp: and_then_Inr_iff)
  from Cons obtain ss where ss: "encode ver float_str blocks = Inr ss"
      and ds: "decode ver float_of ss = Inr blocks"
    by (auto simp: and_then_Inr_iff)
  from s d ss ds show ?case by simp
qed

subsection \<open>Repeated keys\<close>





section \<open>The claims\<close>

text \<open>
  Claim C1. For every block that satisfies the invariants, decoding the encoding of the
  block gives the block back. The code breaks this for a block without a
  squeeze-excitation ratio, which is what the decoder itself produces for a string with
  no \<^verbatim>\<open>se\<close> token: under Python 3 the encoder raises the TypeError of
  \<^verbatim>\<open>None > 0\<close>, so the round trip returns no block at all, whatever the other fields
  are. For every other block of the claim the round trip holds (\<open>round_trip\<close>).
\<close>

theorem round_trip_absent_se_ratio_raises:
  "and_then (encode_block_string Python3 float_str (block\<lparr>se_ratio := None\<rparr>))
            (decode_block_string Python3 float_of) = Inl NoneOrderTypeError"
  by (simp add: encode_block_string_def)

text \<open>
  Claim C2. The encoder emits the tokens \<^verbatim>\<open>r k s e i o\<close> in this order, then the
  \<^verbatim>\<open>se\<close> token exactly if the ratio is present and in (0, 1], then \<^verbatim>\<open>noskip\<close>
  exactly if \<open>id_skip\<close> is false; an absent ratio gives a string without \<^verbatim>\<open>se\<close>
  token and no error. Under Python 3 the code raises on an absent ratio instead of
  returning a string; in every other case it returns the string of the claim
  (\<open>encode_block_string_tokens\<close>).
\<close>

theorem encode_absent_se_ratio_raises:
  "encode_block_string Python3 float_str (block\<lparr>se_ratio := None\<rparr>) = Inl NoneOrderTypeError"
  by (simp add: encode_block_string_def)

text \<open>
  Claim C3, as amended. For every descriptor string in which one of the required keys
  \<^verbatim>\<open>s k r i o e\<close> is absent from the parsed key/value map, decoding fails and
  returns no block. The error is the strides ValueError when \<^verbatim>\<open>s\<close> is absent or
  its value is not two characters long; otherwise it is the error of the first of
  \<^verbatim>\<open>int(options['k'])\<close>, \<^verbatim>\<open>int(options['r'])\<close>, \<^verbatim>\<open>int(options['i'])\<close>,
  \<^verbatim>\<open>int(options['o'])\<close>, \<^verbatim>\<open>int(options['e'])\<close> that raises: a KeyError naming
  the key when the key is absent, a ValueError when its value is no integer literal.
\<close>

theorem decode_block_string_missing_key:
  assumes "key \<in> set [''s'', ''k'', ''r'', ''i'', ''o'', ''e'']"
      and "block_options block_string key = None"
  shows "\<exists>err. decode_block_string ver float_of block_string = Inl err \<and>
           (case block_options block_string ''s'' of
              None \<Rightarrow> err = StridesValueError
            | Some sv \<Rightarrow>
                if length sv \<noteq> 2 then err = StridesValueError
                else find isl (map (int_option ver (block_options block_string))
                                 [''k'', ''r'', ''i'', ''o'', ''e'']) = Some (Inl err)) \<and>
           (err = StridesValueError \<or>
            (\<exists>k. err = KeyError k \<and> block_options block_string k = None) \<or>
            (\<exists>k v. block_options block_string k = Some v \<and> err = IntValueError v))"
proof (cases "block_options block_string ''s''")
  case None
  then show ?thesis by (simp add: decode_block_string_def)
next
  case (Some sv)
  show ?thesis
  proof (cases "length sv = 2")
    case False
    with Some show ?thesis by (simp add: decode_block_string_def)
  next
    case True
    from assms Some have "key \<in> set [''k'', ''r'', ''i'', ''o'', ''e'']" by auto
    with assms(2) have "\<exists>k \<in> set [''k'', ''r'', ''i'', ''o'', ''e''].
        isl (int_option ver (block_options block_string) k)"
      by (auto simp: int_option_def)
    with Some True have "\<exists>err. decode_block_string ver float_of block_string = Inl err \<and>
        find isl (map (int_option ver (block_options block_string))
                    [''k'', ''r'', ''i'', ''o'', ''e'']) = Some (Inl err)"
      by (auto simp: decode_block_string_def Let_def and_then_def split: sum.splits)
    then obtain err where
      d: "decode_block_string ver float_of block_string = Inl err" and
      f: "find isl (map (int_option ver (block_options block_string))
                      [''k'', ''r'', ''i'', ''o'', ''e'']) = Some (Inl err)"
      by blast
    from find_isl_error [OF f]
    have "(\<exists>k. err = KeyError k \<and> block_options block_string k = None) \<or>
          (\<exists>k v. block_options block_string k = Some v \<and> err = IntValueError v)"
      by blast
    with d f Some True show ?thesis by simp
  qed
qed

theorem decode_block_string_missing_key_witness:
  "''r'' \<in> set [''s'', ''k'', ''r'', ''i'', ''o'', ''e''] \<and>
   block_options ''k3_s22_e1_i16_o24'' ''r'' = None \<and>
   block_options ''k3_s22_e1_i16_o24'' ''s'' = Some ''22'' \<and>
   decode_block_string Python3 Map.empty ''k3_s22_e1_i16_o24'' = Inl (KeyError ''r'')"
proof -
  have k: "''r'' \<in> set [''s'', ''k'', ''r'', ''i'', ''o'', ''e'']" by simp
  have r: "block_options ''k3_s22_e1_i16_o24'' ''r'' = None" by (simp add: eval_defs)
  have s: "block_options ''k3_s22_e1_i16_o24'' ''s'' = Some ''22''" by (simp add: eval_defs)
  have f: "find isl (map (int_option Python3 (block_options ''k3_s22_e1_i16_o24''))
                       [''k'', ''r'', ''i'', ''o'', ''e'']) = Some (Inl (KeyError ''r''))"
    by (simp add: eval_defs)
  from decode_block_string_missing_key [OF k r, of Python3 Map.empty] s
  obtain err where
    d: "decode_block_string Python3 Map.empty ''k3_s22_e1_i16_o24'' = Inl err" and
    e: "find isl (map (int_option Python3 (block_options ''k3_s22_e1_i16_o24''))
                    [''k'', ''r'', ''i'', ''o'', ''e'']) = Some (Inl err)"
    by auto
  from e f have "err = KeyError ''r''" by simp
  with d k r s show ?thesis by simp
qed

text \<open>
  The claim as it was stated fails: here \<^verbatim>\<open>r\<close> is absent, and the error is the
  ValueError of \<^verbatim>\<open>int('3x')\<close>, which names no missing key.
\<close>

theorem missing_key_counterexample:
  "block_options ''k3x_s22_e1_i16_o24'' ''r'' = None \<and>
   decode_block_string Python3 Map.empty ''k3x_s22_e1_i16_o24'' = Inl (IntValueError ''3x'')"
  by (simp add: decode_block_string_def eval_defs)

text \<open>
  Claim C4. For every descriptor string whose \<^verbatim>\<open>s\<close> entry in the parsed key/value map
  has a value that is not exactly two characters long (as in \<^verbatim>\<open>r4_k3_s2_e1_i16_o24\<close>),
  decoding fails with the ValueError that says strides should be a pair of integers.
\<close>

theorem strides_length_enforced:
  assumes "block_options block_string ''s'' = Some sv" and "length sv \<noteq> 2"
  shows "decode_block_string ver float_of block_string = Inl StridesValueError"
  using assms by (simp add: decode_block_string_def)

theorem strides_length_enforced_witness:
  "block_options ''r4_k3_s2_e1_i16_o24'' ''s'' = Some ''2'' \<and> length ''2'' \<noteq> 2 \<and>
   decode_block_string Python3 Map.empty ''r4_k3_s2_e1_i16_o24'' = Inl StridesValueError"
proof -
  have s: "block_options ''r4_k3_s2_e1_i16_o24'' ''s'' = Some ''2''"
    by (simp add: eval_defs)
  have l: "length ''2'' \<noteq> 2" by simp
  from strides_length_enforced [OF s l] s l show ?thesis by blast
qed

text \<open>
  Claim C5. For every descriptor string the decoder accepts, the block's \<open>id_skip\<close> is
  false if and only if the text \<^verbatim>\<open>noskip\<close> occurs somewhere in the string, as a
  substring and not only as a token of its own; otherwise it is true.
\<close>

theorem id_skip_iff_noskip_substring:
  assumes "decode_block_string ver float_of block_string = Inr block"
  shows "(id_skip block = False) = (\<exists>pre post. block_string = pre @ ''noskip'' @ post)"
  using decode_block_string_id_skip [OF assms] py_in_iff [of "''noskip''" block_string]
  by simp

theorem id_skip_iff_noskip_substring_witness:
  "decode_block_string Python3 Map.empty ''r1_k3_s11_e1_i32_o16_xnoskipy'' =
     Inr \<lparr> kernel_size = 3, num_repeat = 1, input_filters = 32, output_filters = 16,
           expand_ratio = 1, id_skip = False, se_ratio = None, strides = (1, 1) \<rparr> \<and>
   (\<exists>pre post. ''r1_k3_s11_e1_i32_o16_xnoskipy'' = pre @ ''noskip'' @ post) \<and>
   decode_block_string Python3 Map.empty ''r1_k3_s11_e1_i32_o16'' =
     Inr \<lparr> kernel_size = 3, num_repeat = 1, input_filters = 32, output_filters = 16,
           expand_ratio = 1, id_skip = True, se_ratio = None, strides = (1, 1) \<rparr> \<and>
   (\<nexists>pre post. ''r1_k3_s11_e1_i32_o16'' = pre @ ''noskip'' @ post)"
proof -
  have a: "decode_block_string Python3 Map.empty ''r1_k3_s11_e1_i32_o16_xnoskipy'' =
     Inr \<lparr> kernel_size = 3, num_repeat = 1, input_filters = 32, output_filters = 16,
           expand_ratio = 1, id_skip = False, se_ratio = None, strides = (1, 1) \<rparr>"
    by (simp add: decode_block_string_def eval_defs)
  have b: "decode_block_string Python3 Map.empty ''r1_k3_s11_e1_i32_o16'' =
     Inr \<lparr> kernel_size = 3, num_repeat = 1, input_filters = 32, output_filters = 16,
           expand_ratio = 1, id_skip = True, se_ratio = None, strides = (1, 1) \<rparr>"
    by (simp add: decode_block_string_def eval_defs)
  from id_skip_iff_noskip_substring [OF a] id_skip_iff_noskip_substring [OF b] a b
  show ?thesis by simp
qed

text \<open>
  Claim C6. For every sequence of blocks that satisfy the invariants, decoding the
  encoded sequence gives a sequence of the same length in the same order. The code
  breaks this as soon as one block of the sequence has no squeeze-excitation ratio:
  under Python 3 the encoder raises there (the defect of claims C1 and C2), and
  nothing is decoded. Where every block makes the round trip, so does the sequence
  (\<open>round_trip_list\<close>); \<open>decode\<close> itself works element by element and stops at the
  first string it rejects (\<open>decode_Inr_iff\<close>, \<open>decode_first_error\<close>).
\<close>

theorem encode_list_absent_se_ratio_raises:
  "and_then (encode Python3 float_str (pre @ block\<lparr>se_ratio := None\<rparr> # post))
            (decode Python3 float_of) = Inl NoneOrderTypeError"
proof -
  have "encode Python3 float_str (pre @ block\<lparr>se_ratio := None\<rparr> # post) = Inl NoneOrderTypeError"
  proof (induction pre)
    case Nil
    show ?case by (simp add: encode_block_string_def)
  next
    case (Cons b pre)
    then show ?case
      by (auto split: sum.splits dest: encode_block_string_error)
  qed
  then show ?thesis by simp
qed

text \<open>
  Claim C7. For every record of global parameters and every override dictionary whose
  keys all name fields of the record, applying the overrides returns a record with the
  same fields in which every overridden field has the dictionary's value and every
  other field has the value it had. The function returns a new value; the record it
  was given is a value of the model and cannot change.
\<close>

theorem apply_overrides_known_fields:
  assumes "set (map fst kwds) \<subseteq> set (map fst global_params)"
  shows "\<exists>result. apply_overrides global_params (Some kwds) = Inr result \<and>
           length result = length global_params \<and>
           (\<forall>n < length global_params.
              fst (result ! n) = fst (global_params ! n) \<and>
              snd (result ! n) =
                (case map_of kwds (fst (global_params ! n)) of
                   None \<Rightarrow> snd (global_params ! n)
                 | Some v \<Rightarrow> v))"
proof (cases "kwds = []")
  case True
  then show ?thesis by (simp add: apply_overrides_def)
next
  case False
  from assms have "filter (\<lambda>k. k \<notin> set (map fst global_params)) (map fst kwds) = []"
    by (auto simp: filter_empty_conv)
  with False show ?thesis
    by (simp add: apply_overrides_def namedtuple_replace_def Let_def case_prod_beta)
qed

theorem apply_overrides_known_fields_witness:
  "set (map fst [(''dropout_rate'', PFloat (1 / 2))])
     \<subseteq> set (map fst
       [(''batch_norm_momentum'', PFloat (99 / 100)),
        (''batch_norm_epsilon'', PFloat (1 / 1000)),
        (''dropout_rate'', PFloat (2 / 10)),
        (''data_format'', PStr ''channels_last''),
        (''num_classes'', PInt 1000),
        (''depth_multiplier'', PNone),
        (''depth_divisor'', PInt 8),
        (''expratio'', PInt 3),
        (''kernel'', PInt 5),
        (''min_depth'', PNone)]) \<and>
   apply_overrides
       [(''batch_norm_momentum'', PFloat (99 / 100)),
        (''batch_norm_epsilon'', PFloat (1 / 1000)),
        (''dropout_rate'', PFloat (2 / 10)),
        (''data_format'', PStr ''channels_last''),
        (''num_classes'', PInt 1000),
        (''depth_multiplier'', PNone),
        (''depth_divisor'', PInt 8),
        (''expratio'', PInt 3),
        (''kernel'', PInt 5),
        (''min_depth'', PNone)]
       (Some [(''dropout_rate'', PFloat (1 / 2))])
     = Inr
       [(''batch_norm_momentum'', PFloat (99 / 100)),
        (''batch_norm_epsilon'', PFloat (1 / 1000)),
        (''dropout_rate'', PFloat (1 / 2)),
        (''data_format'', PStr ''channels_last''),
        (''num_classes'', PInt 1000),
        (''depth_multiplier'', PNone),
        (''depth_divisor'', PInt 8),
        (''expratio'', PInt 3),
        (''kernel'', PInt 5),
        (''min_depth'', PNone)]"
proof -
  have sub: "set (map fst [(''dropout_rate'', PFloat (1 / 2))])
     \<subseteq> set (map fst
       [(''batch_norm_momentum'', PFloat (99 / 100)),
        (''batch_norm_epsilon'', PFloat (1 / 1000)),
        (''dropout_rate'', PFloat (2 / 10)),
        (''data_format'', PStr ''channels_last''),
        (''num_classes'', PInt 1000),
        (''depth_multiplier'', PNone),
        (''depth_divisor'', PInt 8),
        (''expratio'', PInt 3),
        (''kernel'', PInt 5),
        (''min_depth'', PNone)])"
    by simp
  have "apply_overrides
       [(''batch_norm_momentum'', PFloat (99 / 100)),
        (''batch_norm_epsilon'', PFloat (1 / 1000)),
        (''dropout_rate'', PFloat (2 / 10)),
        (''data_format'', PStr ''channels_last''),
        (''num_classes'', PInt 1000),
        (''depth_multiplier'', PNone),
        (''depth_divisor'', PInt 8),
        (''expratio'', PInt 3),
        (''kernel'', PInt 5),
        (''min_depth'', PNone)]
       (Some [(''dropout_rate'', PFloat (1 / 2))])
     = Inr
       [(''batch_norm_momentum'', PFloat (99 / 100)),
        (''batch_norm_epsilon'', PFloat (1 / 1000)),
        (''dropout_rate'', PFloat (1 / 2)),
        (''data_format'', PStr ''channels_last''),
        (''num_classes'', PInt 1000),
        (''depth_multiplier'', PNone),
        (''depth_divisor'', PInt 8),
        (''expratio'', PInt 3),
        (''kernel'', PInt 5),
        (''min_depth'', PNone)]"
    by (simp add: apply_overrides_def namedtuple_replace_def)
  with apply_overrides_known_fields [OF sub] sub show ?thesis by blast
qed

text \<open>
  Claim C8. For every record of global parameters and every override dictionary with a
  key that names no field of the record, applying the overrides fails with the
  ValueError that lists the unexpected names, the offending key among them; no record
  is returned, so nothing is merged.
\<close>

theorem apply_overrides_unknown_field:
  assumes "key \<in> set (map fst kwds)" and "key \<notin> set (map fst global_params)"
  shows "\<exists>names. apply_overrides global_params (Some kwds) = Inl (UnexpectedFieldsValueError names) \<and>
           key \<in> set names \<and>
           set names = set (map fst kwds) - set (map fst global_params)"
proof -
  let ?names = "filter (\<lambda>k. k \<notin> set (map fst global_params)) (map fst kwds)"
  from assms have k: "key \<in> set ?names" by simp
  from k have ne: "?names \<noteq> []"
    by (metis empty_iff empty_set)
  from assms(1) have "kwds \<noteq> []" by auto
  with ne have "apply_overrides global_params (Some kwds) = Inl (UnexpectedFieldsValueError ?names)"
    by (simp add: apply_overrides_def namedtuple_replace_def Let_def)
  moreover have "set ?names = set (map fst kwds) - set (map fst global_params)" by auto
  ultimately show ?thesis using k by blast
qed

theorem apply_overrides_unknown_field_witness:
  "''nonexistent_field'' \<in> set (map fst [(''nonexistent_field'', PInt 1)]) \<and>
   ''nonexistent_field'' \<notin> set (map fst
       [(''batch_norm_momentum'', PFloat (99 / 100)),
        (''batch_norm_epsilon'', PFloat (1 / 1000)),
        (''dropout_rate'', PFloat (2 / 10)),
        (''data_format'', PStr ''channels_last''),
        (''num_classes'', PInt 1000),
        (''depth_multiplier'', PNone),
        (''depth_divisor'', PInt 8),
        (''expratio'', PInt 3),
        (''kernel'', PInt 5),
        (''min_depth'', PNone)]) \<and>
   apply_overrides
       [(''batch_norm_momentum'', PFloat (99 / 100)),
        (''batch_norm_epsilon'', PFloat (1 / 1000)),
        (''dropout_rate'', PFloat (2 / 10)),
        (''data_format'', PStr ''channels_last''),
        (''num_classes'', PInt 1000),
        (''depth_multiplier'', PNone),
        (''depth_divisor'', PInt 8),
        (''expratio'', PInt 3),
        (''kernel'', PInt 5),
        (''min_depth'', PNone)]
       (Some [(''nonexistent_field'', PInt 1)])
     = Inl (UnexpectedFieldsValueError [''nonexistent_field''])"
proof -
  have a: "''nonexistent_field'' \<in> set (map fst [(''nonexistent_field'', PInt 1)])"
    by simp
  have b: "''nonexistent_field'' \<notin> set (map fst
       [(''batch_norm_momentum'', PFloat (99 / 100)),
        (''batch_norm_epsilon'', PFloat (1 / 1000)),
        (''dropout_rate'', PFloat (2 / 10)),
        (''data_format'', PStr ''channels_last''),
        (''num_classes'', PInt 1000),
        (''depth_multiplier'', PNone),
        (''depth_divisor'', PInt 8),
        (''expratio'', PInt 3),
        (''kernel'', PInt 5),
        (''min_depth'', PNone)])"
    by simp
  have "apply_overrides
       [(''batch_norm_momentum'', PFloat (99 / 100)),
        (''batch_norm_epsilon'', PFloat (1 / 1000)),
        (''dropout_rate'', PFloat (2 / 10)),
        (''data_format'', PStr ''channels_last''),
        (''num_classes'', PInt 1000),
        (''depth_multiplier'', PNone),
        (''depth_divisor'', PInt 8),
        (''expratio'', PInt 3),
        (''kernel'', PInt 5),
        (''min_depth'', PNone)]
       (Some [(''nonexistent_field'', PInt 1)])
     = Inl (UnexpectedFieldsValueError [''nonexistent_field''])"
    by (simp add: apply_overrides_def namedtuple_replace_def)
  with apply_overrides_unknown_field [OF a b] a b show ?thesis by blast
qed

text \<open>
  Claim C9. Building \<^verbatim>\<open>mnasnet-backbone\<close> with \<^verbatim>\<open>kernel='5'\<close> and
  \<^verbatim>\<open>expratio='3'\<close> and no further override gives exactly seven blocks; the second to
  the sixth have kernel size 5 and expansion ratio 3, the first and the seventh have
  kernel size 3 and no skip connection, and the seventh has expansion ratio 6.
\<close>

theorem backbone_kernel_5_expratio_3:
  "\<exists>blocks global_params.
     build_mnasnet_model ver float_of ''mnasnet-backbone''
       (Some [(''kernel'', PStr ''5''), (''expratio'', PStr ''3'')]) = Inr (blocks, global_params) \<and>
     length blocks = 7 \<and>
     map kernel_size blocks = [3, 5, 5, 5, 5, 5, 3] \<and>
     map expand_ratio blocks = [1, 3, 3, 3, 3, 3, 6] \<and>
     map id_skip blocks = [False, True, True, True, True, True, False]"
  by (simp add: build_mnasnet_model_def override_param_def mnasnet_backbone_def
        apply_overrides_def namedtuple_replace_def show_int_5 show_int_3
        decode_block_string_def eval_defs)



end
